theory Spec2Isabelle
  imports Complex_Main
begin

section \<open>Data frames\<close>

text \<open>
  The program (\<^verbatim>\<open>app.py\<close>) is a Flask service whose \<^verbatim>\<open>process_file\<close> reads a CSV
  file into a pandas data frame, fills the missing cells of the numeric columns with the
  column mean, writes the result back and answers with statistics, a preview and
  per-column flags. The model follows the code line by line; the pandas operations the
  code calls are written out as functions on the representation below.

  A data frame is the ordered list of its named columns. A column carries its dtype, as a
  pandas Series does: \<^verbatim>\<open>int64\<close> (no missing value is representable), \<^verbatim>\<open>float64\<close>
  (NaN, the missing marker, is \<open>None\<close>), \<^verbatim>\<open>bool\<close> and \<^verbatim>\<open>object\<close> (text, missing is
  \<open>None\<close>). Double-precision numbers are modelled by exact reals: rounding, overflow
  and the infinities are outside the model.
\<close>

datatype column =
    Int64 "int list"
  | Float64 "real option list"
  | BoolCol "bool list"
  | Object "string option list"

type_synonym dataframe = "(string \<times> column) list"

datatype dtype = DInt64 | DFloat64 | DBool | DObject

fun dtype_of :: "column \<Rightarrow> dtype" where
  "dtype_of (Int64 xs) = DInt64"
| "dtype_of (Float64 xs) = DFloat64"
| "dtype_of (BoolCol xs) = DBool"
| "dtype_of (Object xs) = DObject"

fun len_series :: "column \<Rightarrow> nat" where
  "len_series (Int64 xs) = length xs"
| "len_series (Float64 xs) = length xs"
| "len_series (BoolCol xs) = length xs"
| "len_series (Object xs) = length xs"

text \<open>\<^verbatim>\<open>len(df)\<close>: the number of rows.\<close>

definition len_df :: "dataframe \<Rightarrow> nat" where
  "len_df df = (case df of [] \<Rightarrow> 0 | (name, c) # rest \<Rightarrow> len_series c)"

text \<open>\<^verbatim>\<open>df.columns\<close>.\<close>

definition columns :: "dataframe \<Rightarrow> string list" where
  "columns df = map fst df"

text \<open>
  What pandas guarantees of every frame \<^verbatim>\<open>read_csv\<close> returns: the column names are
  unique (duplicates are renamed) and all columns have the same length.
\<close>

definition wf_df :: "dataframe \<Rightarrow> bool" where
  "wf_df df \<longleftrightarrow> distinct (map fst df) \<and> list_all (\<lambda>(name, c). len_series c = len_df df) df"

text \<open>The exceptions the modelled operations can raise, and the error answers of the service.\<close>

datatype exn = KeyError | TypeError | ZeroDivisionError

datatype error =
    FileNotFound
  | NoNumericColumns
  | ProcessingFailed exn

text \<open>\<^verbatim>\<open>df[col]\<close>.\<close>

definition getitem :: "dataframe \<Rightarrow> string \<Rightarrow> exn + column" where
  "getitem df col = (case map_of df col of None \<Rightarrow> Inl KeyError | Some c \<Rightarrow> Inr c)"

text \<open>Writing a column back in place, as the in-place \<^verbatim>\<open>fillna\<close> on \<^verbatim>\<open>df[col]\<close> does.\<close>

definition setitem :: "dataframe \<Rightarrow> string \<Rightarrow> column \<Rightarrow> dataframe" where
  "setitem df col c' = map (\<lambda>(name, c). if name = col then (name, c') else (name, c)) df"

text \<open>\<^verbatim>\<open>Series.isna()\<close>, \<^verbatim>\<open>.any()\<close> and \<^verbatim>\<open>.sum()\<close> of a boolean series.\<close>

fun isna :: "column \<Rightarrow> bool list" where
  "isna (Int64 xs) = map (\<lambda>x. False) xs"
| "isna (Float64 xs) = map (\<lambda>x. x = None) xs"
| "isna (BoolCol xs) = map (\<lambda>x. False) xs"
| "isna (Object xs) = map (\<lambda>x. x = None) xs"

definition series_any :: "bool list \<Rightarrow> bool" where
  "series_any bs \<longleftrightarrow> True \<in> set bs"

definition series_sum :: "bool list \<Rightarrow> nat" where
  "series_sum bs = length (filter (\<lambda>b. b) bs)"

text \<open>
  \<^verbatim>\<open>Series.mean()\<close> with the default \<^verbatim>\<open>skipna=True\<close>, as pandas computes it: the missing
  cells count as 0 in the sum, the sum is divided by the number of cells that are not
  missing, and the result is NaN (\<open>None\<close>) when there is none. The mean of a text
  column raises.
\<close>

definition nanmean :: "real option list \<Rightarrow> real option" where
  "nanmean xs =
     (let count = length (filter (\<lambda>x. x \<noteq> None) xs);
          the_sum = sum_list (map (\<lambda>x. case x of None \<Rightarrow> 0 | Some v \<Rightarrow> v) xs)
      in if count > 0 then Some (the_sum / real count) else None)"

fun mean :: "column \<Rightarrow> exn + real option" where
  "mean (Int64 xs) = Inr (nanmean (map (\<lambda>i. Some (real_of_int i)) xs))"
| "mean (Float64 xs) = Inr (nanmean xs)"
| "mean (BoolCol xs) = Inr (nanmean (map (\<lambda>b. Some (if b then 1 else 0)) xs))"
| "mean (Object xs) = Inl TypeError"

text \<open>
  \<^verbatim>\<open>Series.fillna(value)\<close> for a number \<open>value\<close>. Only a \<^verbatim>\<open>float64\<close> column can hold
  a missing number; the program reaches this call for no column of another dtype that has
  a missing cell (the mean of a text column raises first).
\<close>

fun fillna :: "real \<Rightarrow> column \<Rightarrow> column" where
  "fillna v (Float64 xs) = Float64 (map (\<lambda>x. case x of None \<Rightarrow> Some v | Some y \<Rightarrow> Some y) xs)"
| "fillna v c = c"

text \<open>\<^verbatim>\<open>df.select_dtypes(include=[np.number]).columns.tolist()\<close>.\<close>

fun is_number_dtype :: "dtype \<Rightarrow> bool" where
  "is_number_dtype DInt64 = True"
| "is_number_dtype DFloat64 = True"
| "is_number_dtype DBool = False"
| "is_number_dtype DObject = False"

definition select_dtypes_number :: "dataframe \<Rightarrow> string list" where
  "select_dtypes_number df = map fst (filter (\<lambda>(name, c). is_number_dtype (dtype_of c)) df)"

text \<open>\<^verbatim>\<open>df.head(n)\<close> and \<^verbatim>\<open>Series.head(n)\<close> for \<open>n \<ge> 0\<close>.\<close>

fun head_series :: "nat \<Rightarrow> column \<Rightarrow> column" where
  "head_series n (Int64 xs) = Int64 (take n xs)"
| "head_series n (Float64 xs) = Float64 (take n xs)"
| "head_series n (BoolCol xs) = BoolCol (take n xs)"
| "head_series n (Object xs) = Object (take n xs)"

definition head :: "nat \<Rightarrow> dataframe \<Rightarrow> dataframe" where
  "head n df = map (\<lambda>(name, c). (name, head_series n c)) df"

section \<open>The store\<close>

text \<open>
  Data frames are mutable objects that variables refer to. The heap is the list of the
  objects allocated so far, an address is an index into it; the files of the upload
  folder map a name to the table they hold (parsing and printing CSV text is pandas' part
  and is not modelled: a file holds the frame \<^verbatim>\<open>read_csv\<close> returns for it).
\<close>

record state =
  files :: "string \<rightharpoonup> dataframe"
  heap :: "dataframe list"

definition new_object :: "dataframe \<Rightarrow> state \<Rightarrow> nat \<times> state" where
  "new_object df s = (length (heap s), s\<lparr>heap := heap s @ [df]\<rparr>)"

text \<open>\<^verbatim>\<open>df.copy()\<close>: a new object with the same contents.\<close>

definition df_copy :: "nat \<Rightarrow> state \<Rightarrow> nat \<times> state" where
  "df_copy a s = new_object (heap s ! a) s"

section \<open>Statistics\<close>

record imputation_stats =
  total_rows :: nat
  total_columns :: nat
  numeric_column_count :: nat
  column_means :: "string \<rightharpoonup> real"
  imputed_counts :: "string \<rightharpoonup> nat"
  total_imputations :: nat
  missing_data_rate :: real

text \<open>
  Python's \<^verbatim>\<open>a / b\<close> and \<^verbatim>\<open>round(x, 2)\<close> (ties go to the even neighbour), on exact
  numbers.
\<close>

definition truediv :: "real \<Rightarrow> real \<Rightarrow> exn + real" where
  "truediv a b = (if b = 0 then Inl ZeroDivisionError else Inr (a / b))"

definition round_half_even :: "real \<Rightarrow> int" where
  "round_half_even x =
     (let f = \<lfloor>x\<rfloor>; d = x - of_int f
      in if d < 1 / 2 then f else if 1 / 2 < d then f + 1 else if even f then f else f + 1)"

definition py_round :: "real \<Rightarrow> nat \<Rightarrow> real" where
  "py_round x ndigits = of_int (round_half_even (x * 10 ^ ndigits)) / 10 ^ ndigits"

text \<open>
  The loop of \<^verbatim>\<open>calculate_imputation_stats\<close> over \<^verbatim>\<open>numeric_columns\<close>; the accumulator
  holds \<^verbatim>\<open>column_means\<close>, \<^verbatim>\<open>imputed_counts\<close> and \<^verbatim>\<open>total_imputations\<close>.
\<close>

fun stats_loop :: "dataframe \<Rightarrow> string list \<Rightarrow>
    (string \<rightharpoonup> real) \<times> (string \<rightharpoonup> nat) \<times> nat \<Rightarrow>
    exn + (string \<rightharpoonup> real) \<times> (string \<rightharpoonup> nat) \<times> nat" where
  "stats_loop original_df [] acc = Inr acc"
| "stats_loop original_df (col # cols) (means, counts, imputations) =
     (case getitem original_df col of
        Inl e \<Rightarrow> Inl e
      | Inr c \<Rightarrow>
          (let missing_count = series_sum (isna c)
           in case mean c of
                Inl e \<Rightarrow> Inl e
              | Inr mean_val \<Rightarrow>
                  stats_loop original_df cols
                    (means(col \<mapsto> (case mean_val of None \<Rightarrow> 0 | Some m \<Rightarrow> m)),
                     counts(col \<mapsto> missing_count),
                     imputations + missing_count)))"

definition calculate_imputation_stats ::
    "dataframe \<Rightarrow> dataframe \<Rightarrow> string list \<Rightarrow> exn + imputation_stats" where
  "calculate_imputation_stats original_df processed_df numeric_columns =
     (case stats_loop original_df numeric_columns (Map.empty, Map.empty, 0) of
        Inl e \<Rightarrow> Inl e
      | Inr (means, counts, imputations) \<Rightarrow>
          (let total_numeric_cells = len_df original_df * length numeric_columns
           in if total_numeric_cells > 0 then
                (case truediv (real imputations) (real total_numeric_cells) of
                   Inl e \<Rightarrow> Inl e
                 | Inr q \<Rightarrow>
                     Inr \<lparr>total_rows = len_df original_df,
                          total_columns = length (columns original_df),
                          numeric_column_count = length numeric_columns,
                          column_means = means, imputed_counts = counts,
                          total_imputations = imputations,
                          missing_data_rate = py_round (q * 100) 2\<rparr>)
              else
                Inr \<lparr>total_rows = len_df original_df,
                     total_columns = length (columns original_df),
                     numeric_column_count = length numeric_columns,
                     column_means = means, imputed_counts = counts,
                     total_imputations = imputations,
                     missing_data_rate = 0\<rparr>))"

section \<open>Mean imputation\<close>

text \<open>
  One pass of the loop ``\<^verbatim>\<open>for col in numeric_columns\<close>'' of \<^verbatim>\<open>process_file\<close>, on the
  frame at address \<open>p\<close>. The in-place \<^verbatim>\<open>fillna\<close> is taken to write through to the
  frame, which is what the program relies on. The result pairs the exception raised, if
  any, with the state reached.
\<close>

definition impute_column :: "nat \<Rightarrow> string \<Rightarrow> state \<Rightarrow> exn option \<times> state" where
  "impute_column p col s =
     (case getitem (heap s ! p) col of
        Inl e \<Rightarrow> (Some e, s)
      | Inr c \<Rightarrow>
          if series_any (isna c) then
            (case mean c of
               Inl e \<Rightarrow> (Some e, s)
             | Inr None \<Rightarrow> (None, s)
             | Inr (Some mean_value) \<Rightarrow>
                 (None, s\<lparr>heap := (heap s)[p := setitem (heap s ! p) col (fillna mean_value c)]\<rparr>))
          else (None, s))"

fun impute_loop :: "nat \<Rightarrow> string list \<Rightarrow> state \<Rightarrow> exn option \<times> state" where
  "impute_loop p [] s = (None, s)"
| "impute_loop p (col # cols) s =
     (case impute_column p col s of
        (Some e, s') \<Rightarrow> (Some e, s')
      | (None, s') \<Rightarrow> impute_loop p cols s')"

section \<open>Preview and flags\<close>

text \<open>
  \<^verbatim>\<open>iterrows\<close> yields each row as one Series over \<^verbatim>\<open>df.values\<close>, an array of a single
  dtype: the common dtype of the columns. Columns of one dtype keep it, \<^verbatim>\<open>int64\<close> with
  \<^verbatim>\<open>float64\<close> gives \<^verbatim>\<open>float64\<close>, every other mixture gives \<^verbatim>\<open>object\<close>. The elements of
  an \<^verbatim>\<open>int64\<close>, \<^verbatim>\<open>float64\<close> or \<^verbatim>\<open>bool\<close> array read as numpy scalars, those of an
  \<^verbatim>\<open>object\<close> array as the Python objects the conversion made of them.
\<close>

datatype pyval =
    NpInt int
  | NpFloat "real option"
  | NpBool bool
  | PyInt int
  | PyFloat "real option"
  | PyBool bool
  | PyStr string

fun find_common_type :: "dtype \<Rightarrow> dtype \<Rightarrow> dtype" where
  "find_common_type DInt64 DInt64 = DInt64"
| "find_common_type DInt64 DFloat64 = DFloat64"
| "find_common_type DFloat64 DInt64 = DFloat64"
| "find_common_type DFloat64 DFloat64 = DFloat64"
| "find_common_type DBool DBool = DBool"
| "find_common_type a b = DObject"

definition values_dtype :: "dataframe \<Rightarrow> dtype" where
  "values_dtype df =
     (case df of
        [] \<Rightarrow> DObject
      | (name, c) # rest \<Rightarrow> fold (\<lambda>(name', c') d. find_common_type d (dtype_of c')) rest (dtype_of c))"

fun to_object :: "column \<Rightarrow> pyval list" where
  "to_object (Int64 xs) = map PyInt xs"
| "to_object (Float64 xs) = map PyFloat xs"
| "to_object (BoolCol xs) = map PyBool xs"
| "to_object (Object xs) = map (\<lambda>x. case x of None \<Rightarrow> PyFloat None | Some t \<Rightarrow> PyStr t) xs"

fun astype :: "dtype \<Rightarrow> column \<Rightarrow> pyval list" where
  "astype DInt64 (Int64 xs) = map NpInt xs"
| "astype DFloat64 (Int64 xs) = map (\<lambda>i. NpFloat (Some (real_of_int i))) xs"
| "astype DFloat64 (Float64 xs) = map NpFloat xs"
| "astype DBool (BoolCol xs) = map NpBool xs"
| "astype d c = to_object c"

text \<open>The rows \<^verbatim>\<open>iterrows\<close> yields: row \<open>i\<close> lists, for each column label, the element.\<close>

definition iterrows :: "dataframe \<Rightarrow> (string \<times> pyval) list list" where
  "iterrows df =
     (let d = values_dtype df
      in map (\<lambda>i. map (\<lambda>(name, c). (name, astype d c ! i)) df) [0..<len_df df])"

text \<open>
  The values of the JSON answer. \<open>Text v\<close> stands for the text \<^verbatim>\<open>str(v)\<close>; how Python
  prints a number is not modelled.
\<close>

datatype json = Null | Integer int | Floating real | Text pyval

text \<open>
  The chain of tests of the preview loop: \<^verbatim>\<open>pd.isna(value)\<close>, then
  \<^verbatim>\<open>isinstance(value, (np.integer, ...))\<close>, then \<^verbatim>\<open>isinstance(value, (np.floating, ...))\<close>,
  else \<^verbatim>\<open>str(value)\<close>. A Python \<^verbatim>\<open>int\<close> or \<^verbatim>\<open>float\<close> is an instance of neither numpy
  class.
\<close>

fun pd_isna :: "pyval \<Rightarrow> bool" where
  "pd_isna (NpFloat None) = True"
| "pd_isna (PyFloat None) = True"
| "pd_isna v = False"

definition to_native :: "pyval \<Rightarrow> json" where
  "to_native v =
     (if pd_isna v then Null
      else case v of
             NpInt i \<Rightarrow> Integer i
           | NpFloat (Some x) \<Rightarrow> Floating x
           | _ \<Rightarrow> Text v)"

text \<open>The inner loop ``\<^verbatim>\<open>for col in preview_df.columns\<close>'' on one row.\<close>

fun row_loop :: "(string \<times> pyval) list \<Rightarrow> string list \<Rightarrow> (string \<rightharpoonup> json) \<Rightarrow>
    exn + (string \<rightharpoonup> json)" where
  "row_loop row [] row_dict = Inr row_dict"
| "row_loop row (col # cols) row_dict =
     (case map_of row col of
        None \<Rightarrow> Inl KeyError
      | Some v \<Rightarrow> row_loop row cols (row_dict(col \<mapsto> to_native v)))"

text \<open>The outer loop over the rows, appending each \<^verbatim>\<open>row_dict\<close> to \<^verbatim>\<open>preview_data\<close>.\<close>

fun preview_loop :: "(string \<times> pyval) list list \<Rightarrow> string list \<Rightarrow> (string \<rightharpoonup> json) list \<Rightarrow>
    exn + (string \<rightharpoonup> json) list" where
  "preview_loop [] cols preview_data = Inr preview_data"
| "preview_loop (row # rows) cols preview_data =
     (case row_loop row cols Map.empty of
        Inl e \<Rightarrow> Inl e
      | Inr row_dict \<Rightarrow> preview_loop rows cols (preview_data @ [row_dict]))"

text \<open>
  The preview of the first \<open>limit\<close> rows of a frame; \<^verbatim>\<open>process_file\<close> takes
  \<open>limit = 50\<close>.
\<close>

definition preview :: "nat \<Rightarrow> dataframe \<Rightarrow> exn + (string \<rightharpoonup> json) list" where
  "preview limit processed_df =
     (let preview_df = head limit processed_df
      in preview_loop (iterrows preview_df) (columns preview_df) [])"

text \<open>The loop that builds \<^verbatim>\<open>imputation_flags\<close> from the original frame.\<close>

fun flags_loop :: "nat \<Rightarrow> dataframe \<Rightarrow> string list \<Rightarrow> (string \<rightharpoonup> bool list) \<Rightarrow>
    exn + (string \<rightharpoonup> bool list)" where
  "flags_loop limit original_df [] imputation_flags = Inr imputation_flags"
| "flags_loop limit original_df (col # cols) imputation_flags =
     (case getitem original_df col of
        Inl e \<Rightarrow> Inl e
      | Inr c \<Rightarrow>
          (let missing_mask = isna c
           in flags_loop limit original_df cols (imputation_flags(col \<mapsto> take limit missing_mask))))"

section \<open>The request handler\<close>

record response =
  stats :: imputation_stats
  preview_data :: "(string \<rightharpoonup> json) list"
  imputation_flags :: "string \<rightharpoonup> bool list"
  processed_filename :: string
  numeric_columns :: "string list"

text \<open>
  \<^verbatim>\<open>process_file\<close> for a request whose JSON body names \<open>filename\<close> (the answer to
  a body without that key is not part of the model). \<^verbatim>\<open>read_csv\<close> allocates the
  original frame, \<^verbatim>\<open>copy\<close> the processed one; \<^verbatim>\<open>to_csv\<close> stores the processed frame
  under the name \<^verbatim>\<open>processed_<filename>\<close>. An exception anywhere is answered with
  \<open>ProcessingFailed\<close> (status 500), a missing file with \<open>FileNotFound\<close> (404), a
  table without numeric columns with \<open>NoNumericColumns\<close> (400).
\<close>

definition process_file :: "string \<Rightarrow> state \<Rightarrow> (error + response) \<times> state" where
  "process_file filename s =
     (case files s filename of
        None \<Rightarrow> (Inl FileNotFound, s)
      | Some table \<Rightarrow>
          (let (original_df, s1) = new_object table s;
               (processed_df, s2) = df_copy original_df s1;
               numeric_cols = select_dtypes_number (heap s2 ! processed_df)
           in if numeric_cols = [] then (Inl NoNumericColumns, s2)
              else
                (case impute_loop processed_df numeric_cols s2 of
                   (Some e, s3) \<Rightarrow> (Inl (ProcessingFailed e), s3)
                 | (None, s3) \<Rightarrow>
                     (case calculate_imputation_stats (heap s3 ! original_df)
                             (heap s3 ! processed_df) numeric_cols of
                        Inl e \<Rightarrow> (Inl (ProcessingFailed e), s3)
                      | Inr st \<Rightarrow>
                          (let processed_name = ''processed_'' @ filename;
                               s4 = s3\<lparr>files := (files s3)(processed_name \<mapsto> heap s3 ! processed_df)\<rparr>
                           in case preview 50 (heap s4 ! processed_df) of
                                Inl e \<Rightarrow> (Inl (ProcessingFailed e), s4)
                              | Inr rows \<Rightarrow>
                                  (case flags_loop 50 (heap s4 ! original_df) numeric_cols Map.empty of
                                     Inl e \<Rightarrow> (Inl (ProcessingFailed e), s4)
                                   | Inr flags \<Rightarrow>
                                       (Inr \<lparr>stats = st, preview_data = rows,
                                             imputation_flags = flags,
                                             processed_filename = processed_name,
                                             numeric_columns = numeric_cols\<rparr>, s4)))))))"

section \<open>Notions used to state the properties\<close>

text \<open>
  The closed form of one pass of the imputation loop on a column, and of the whole loop
  on a frame: the lemmas below show that the loop computes them.
\<close>

definition imputed :: "column \<Rightarrow> column" where
  "imputed c =
     (if series_any (isna c) then
        (case mean c of Inr (Some m) \<Rightarrow> fillna m c | _ \<Rightarrow> c)
      else c)"

definition imputed_frame :: "string list \<Rightarrow> dataframe \<Rightarrow> dataframe" where
  "imputed_frame cols df = map (\<lambda>(name, c). (name, if name \<in> set cols then imputed c else c)) df"

text \<open>
  The mean as the specification words it: the values of a numeric column that are not
  missing, their sum divided by their number, and 0 when there is none.
\<close>

fun present :: "real option list \<Rightarrow> real list" where
  "present [] = []"
| "present (None # xs) = present xs"
| "present (Some v # xs) = v # present xs"

fun non_missing_values :: "column \<Rightarrow> real list" where
  "non_missing_values (Int64 xs) = map real_of_int xs"
| "non_missing_values (Float64 xs) = present xs"
| "non_missing_values c = []"

definition arithmetic_mean :: "real list \<Rightarrow> real" where
  "arithmetic_mean vs = sum_list vs / real (length vs)"

definition spec_mean :: "column \<Rightarrow> real" where
  "spec_mean c = (if non_missing_values c = [] then 0 else arithmetic_mean (non_missing_values c))"





text \<open>Example tables, and the state in which one table was uploaded under a name.\<close>

definition scenario_table :: dataframe where
  "scenario_table =
     [(''name'', Object [Some ''ann'', Some ''bob'', None, Some ''dan'']),
      (''age'', Float64 [Some 25, None, Some 35, None])]"

definition empty_column_table :: dataframe where
  "empty_column_table = [(''id'', Int64 [1, 2]), (''score'', Float64 [None, None])]"



definition int_float_table :: dataframe where
  "int_float_table = [(''n'', Int64 [1]), (''x'', Float64 [Some (3 / 2)])]"

definition upload :: "string \<Rightarrow> dataframe \<Rightarrow> state" where
  "upload filename table = \<lparr>files = [filename \<mapsto> table], heap = []\<rparr>"

section \<open>Lemmas about the operations\<close>

lemma getitem_Some: "map_of df col = Some c \<Longrightarrow> getitem df col = Inr c"
  by (simp add: getitem_def)

lemma setitem_same:
  assumes "distinct (map fst df)" and "map_of df col = Some c"
  shows "setitem df col c = df"
proof -
  have "(if name = col then (name, c) else (name, x)) = (name, x)" if "(name, x) \<in> set df" for name x
    using that assms by (auto dest: eq_key_imp_eq_value)
  then show ?thesis
    unfolding setitem_def by (intro map_idI) auto
qed

lemma select_dtypes_number_mem:
  "col \<in> set (select_dtypes_number df) \<longleftrightarrow> (\<exists>c. (col, c) \<in> set df \<and> is_number_dtype (dtype_of c))"
  by (auto simp: select_dtypes_number_def image_iff)

lemma dtype_fillna [simp]: "dtype_of (fillna v c) = dtype_of c"
  by (cases c) auto

lemma dtype_imputed [simp]: "dtype_of (imputed c) = dtype_of c"
  by (auto simp: imputed_def split: sum.splits option.splits)

lemma len_fillna [simp]: "len_series (fillna v c) = len_series c"
  by (cases c) auto

lemma len_imputed [simp]: "len_series (imputed c) = len_series c"
  by (auto simp: imputed_def split: sum.splits option.splits)

lemma mean_number: "is_number_dtype (dtype_of c) \<Longrightarrow> \<exists>m. mean c = Inr m"
  by (cases c) auto

lemma imputed_idem: "imputed (imputed c) = imputed c"
proof (cases c)
  case (Float64 xs)
  then show ?thesis
    by (auto simp: imputed_def series_any_def split: option.splits sum.splits)
qed (auto simp: imputed_def series_any_def)

lemma imputed_frame_Nil [simp]: "imputed_frame [] df = df"
  by (simp add: imputed_frame_def)

lemma map_fst_imputed_frame [simp]: "map fst (imputed_frame cols df) = map fst df"
  by (simp add: imputed_frame_def case_prod_beta comp_def)

lemma select_dtypes_imputed_frame [simp]:
  "select_dtypes_number (imputed_frame cols df) = select_dtypes_number df"
  by (induction df) (auto simp: imputed_frame_def select_dtypes_number_def split: if_splits)

lemma imputed_frame_Cons:
  "imputed_frame cols (imputed_frame [col] df) = imputed_frame (col # cols) df"
  by (induction df) (auto simp: imputed_frame_def imputed_idem)

lemma map_of_imputed_frame:
  "map_of (imputed_frame cols df) col =
     (case map_of df col of None \<Rightarrow> None
      | Some c \<Rightarrow> Some (if col \<in> set cols then imputed c else c))"
  by (induction df) (auto simp: imputed_frame_def)

lemma setitem_imputed:
  assumes "distinct (map fst df)" and "map_of df col = Some c"
  shows "setitem df col (imputed c) = imputed_frame [col] df"
proof -
  have "(if name = col then (name, imputed c) else (name, x)) =
        (name, if name \<in> set [col] then imputed x else x)" if "(name, x) \<in> set df" for name x
    using that assms by (auto dest: eq_key_imp_eq_value)
  then show ?thesis
    unfolding setitem_def imputed_frame_def by (intro map_cong) auto
qed

lemma impute_column_frame:
  assumes "p < length (heap s)" and "distinct (map fst (heap s ! p))"
    and "map_of (heap s ! p) col = Some c" and "is_number_dtype (dtype_of c)"
  shows "impute_column p col s = (None, s\<lparr>heap := (heap s)[p := imputed_frame [col] (heap s ! p)]\<rparr>)"
proof -
  obtain m where m: "mean c = Inr m"
    using mean_number [OF assms(4)] by blast
  have frame: "imputed_frame [col] (heap s ! p) = setitem (heap s ! p) col (imputed c)"
    using setitem_imputed [OF assms(2,3)] by simp
  show ?thesis
  proof (cases "series_any (isna c) \<and> m \<noteq> None")
    case True
    then obtain v where "m = Some v" by auto
    with True m show ?thesis
      by (simp add: impute_column_def getitem_Some [OF assms(3)] frame imputed_def)
  next
    case False
    then have "imputed c = c"
      using m by (auto simp: imputed_def)
    then have "imputed_frame [col] (heap s ! p) = heap s ! p"
      using frame setitem_same [OF assms(2,3)] by simp
    then have "s\<lparr>heap := (heap s)[p := imputed_frame [col] (heap s ! p)]\<rparr> = s"
      by simp
    with False m show ?thesis
      by (auto simp: impute_column_def getitem_Some [OF assms(3)])
  qed
qed

lemma number_column_lookup:
  assumes "distinct (map fst df)" and "col \<in> set (select_dtypes_number df)"
  obtains c where "map_of df col = Some c" and "is_number_dtype (dtype_of c)"
  using assms by (auto simp: select_dtypes_number_mem)

lemma impute_loop_frame:
  assumes "p < length (heap s)" and "distinct (map fst (heap s ! p))"
    and "set cols \<subseteq> set (select_dtypes_number (heap s ! p))"
  shows "impute_loop p cols s = (None, s\<lparr>heap := (heap s)[p := imputed_frame cols (heap s ! p)]\<rparr>)"
  using assms
proof (induction cols arbitrary: s)
  case Nil
  then show ?case by simp
next
  case (Cons col cols)
  let ?df = "heap s ! p"
  let ?s1 = "s\<lparr>heap := (heap s)[p := imputed_frame [col] ?df]\<rparr>"
  obtain c where c: "map_of ?df col = Some c" "is_number_dtype (dtype_of c)"
    using number_column_lookup [OF Cons.prems(2), of col] Cons.prems(3) by auto
  have step: "impute_column p col s = (None, ?s1)"
    by (rule impute_column_frame [OF Cons.prems(1,2) c])
  have h1: "heap ?s1 ! p = imputed_frame [col] ?df"
    using Cons.prems(1) by simp
  have "impute_loop p cols ?s1 =
        (None, ?s1\<lparr>heap := (heap ?s1)[p := imputed_frame cols (heap ?s1 ! p)]\<rparr>)"
    using Cons.prems by (intro Cons.IH) (simp_all add: h1)
  then show ?case
    using step Cons.prems(1) by (simp add: imputed_frame_Cons)
qed

lemma impute_column_other:
  "impute_column p col s = (e, s') \<Longrightarrow>
   files s' = files s \<and> length (heap s') = length (heap s) \<and> (\<forall>a. a \<noteq> p \<longrightarrow> heap s' ! a = heap s ! a)"
  by (auto simp: impute_column_def split: sum.splits option.splits if_splits)

lemma impute_loop_other:
  "impute_loop p cols s = (e, s') \<Longrightarrow>
   files s' = files s \<and> length (heap s') = length (heap s) \<and> (\<forall>a. a \<noteq> p \<longrightarrow> heap s' ! a = heap s ! a)"
proof (induction cols arbitrary: s)
  case Nil
  then show ?case by simp
next
  case (Cons col cols)
  obtain e1 s1 where s1: "impute_column p col s = (e1, s1)"
    by (cases "impute_column p col s")
  note o1 = impute_column_other [OF s1]
  show ?case
  proof (cases e1)
    case None
    with Cons.prems s1 have "impute_loop p cols s1 = (e, s')" by simp
    from Cons.IH [OF this] o1 show ?thesis by simp
  next
    case (Some x)
    with Cons.prems s1 have "s' = s1" by simp
    with o1 show ?thesis by simp
  qed
qed

lemma count_present: "length (filter (\<lambda>x. x \<noteq> None) xs) = length (present xs)"
  by (induction xs rule: present.induct) auto

lemma sum_present: "sum_list (map (\<lambda>x. case x of None \<Rightarrow> 0 | Some v \<Rightarrow> v) xs) = sum_list (present xs)"
  by (induction xs rule: present.induct) auto

lemma nanmean_present:
  "nanmean xs = (if present xs = [] then None else Some (arithmetic_mean (present xs)))"
  unfolding nanmean_def Let_def count_present sum_present
  by (simp add: arithmetic_mean_def)

lemma present_map_Some: "present (map (\<lambda>i. Some (f i)) xs) = map f xs"
  by (induction xs) auto

lemma mean_spec:
  "is_number_dtype (dtype_of c) \<Longrightarrow>
   mean c = Inr (if non_missing_values c = [] then None else Some (spec_mean c))"
  by (cases c) (auto simp: nanmean_present present_map_Some spec_mean_def)

lemma stats_loop_result:
  assumes "distinct (map fst df)" and "set cols \<subseteq> set (select_dtypes_number df)"
  shows "\<exists>means' counts'.
     stats_loop df cols (means, counts, n) =
       Inr (means', counts', n + sum_list (map (\<lambda>col. series_sum (isna (the (map_of df col)))) cols)) \<and>
     (\<forall>col c. col \<in> set cols \<longrightarrow> map_of df col = Some c \<longrightarrow>
        means' col = Some (spec_mean c) \<and> counts' col = Some (series_sum (isna c))) \<and>
     (\<forall>col. col \<notin> set cols \<longrightarrow> means' col = means col \<and> counts' col = counts col)"
  using assms(2)
proof (induction cols arbitrary: means counts n)
  case Nil
  then show ?case by simp
next
  case (Cons col cols)
  obtain c where c: "map_of df col = Some c" "is_number_dtype (dtype_of c)"
    using number_column_lookup [OF assms(1), of col] Cons.prems by auto
  let ?v = "case (if non_missing_values c = [] then None else Some (spec_mean c)) of None \<Rightarrow> 0 | Some m \<Rightarrow> m"
  have v: "?v = spec_mean c"
    by (simp add: spec_mean_def)
  let ?means = "means(col \<mapsto> spec_mean c)"
  let ?counts = "counts(col \<mapsto> series_sum (isna c))"
  have step: "stats_loop df (col # cols) (means, counts, n) =
      stats_loop df cols (?means, ?counts, n + series_sum (isna c))"
    using v by (simp add: getitem_Some [OF c(1)] mean_spec [OF c(2)] Let_def)
  from Cons.prems have "set cols \<subseteq> set (select_dtypes_number df)" by simp
  from Cons.IH [OF this, of ?means ?counts "n + series_sum (isna c)"]
  obtain means' counts' where r:
    "stats_loop df cols (?means, ?counts, n + series_sum (isna c)) =
       Inr (means', counts', n + series_sum (isna c) + sum_list (map (\<lambda>col. series_sum (isna (the (map_of df col)))) cols))"
    "\<forall>col c. col \<in> set cols \<longrightarrow> map_of df col = Some c \<longrightarrow>
        means' col = Some (spec_mean c) \<and> counts' col = Some (series_sum (isna c))"
    "\<forall>x. x \<notin> set cols \<longrightarrow> means' x = ?means x \<and> counts' x = ?counts x"
    by blast
  have a: "stats_loop df (col # cols) (means, counts, n) =
       Inr (means', counts', n + sum_list (map (\<lambda>col. series_sum (isna (the (map_of df col)))) (col # cols)))"
    using step r(1) c(1) by (simp add: add.assoc)
  have b: "means' x = Some (spec_mean d) \<and> counts' x = Some (series_sum (isna d))"
    if "x \<in> set (col # cols)" "map_of df x = Some d" for x d
  proof (cases "x \<in> set cols")
    case True
    with r(2) that show ?thesis by blast
  next
    case False
    with that have "x = col" by simp
    with False r(3) c(1) that show ?thesis by simp
  qed
  have d: "means' x = means x \<and> counts' x = counts x" if "x \<notin> set (col # cols)" for x
    using r(3) that by simp
  from a b d show ?case by blast
qed



lemma stats_result:
  assumes "distinct (map fst df)" and "set cols \<subseteq> set (select_dtypes_number df)"
  shows "\<exists>st. calculate_imputation_stats df pdf cols = Inr st \<and>
     total_imputations st = sum_list (map (\<lambda>col. series_sum (isna (the (map_of df col)))) cols) \<and>
     (\<forall>col c. col \<in> set cols \<longrightarrow> map_of df col = Some c \<longrightarrow>
        column_means st col = Some (spec_mean c) \<and> imputed_counts st col = Some (series_sum (isna c)))"
proof -
  from stats_loop_result [OF assms, of Map.empty Map.empty 0]
  obtain means' counts' where r:
    "stats_loop df cols (Map.empty, Map.empty, 0) =
       Inr (means', counts', sum_list (map (\<lambda>col. series_sum (isna (the (map_of df col)))) cols))"
    "\<forall>col c. col \<in> set cols \<longrightarrow> map_of df col = Some c \<longrightarrow>
        means' col = Some (spec_mean c) \<and> counts' col = Some (series_sum (isna c))"
    by auto
  show ?thesis
    using r(2) by (simp add: calculate_imputation_stats_def r(1) truediv_def Let_def)
qed

lemma len_head_series [simp]: "len_series (head_series n c) = min n (len_series c)"
  by (cases c) auto

lemma len_df_head: "len_df (head n df) = min n (len_df df)"
  by (cases df) (auto simp: len_df_def head_def)

lemma row_loop_ok:
  "set cols \<subseteq> fst ` set row \<Longrightarrow> \<exists>d'. row_loop row cols d = Inr d'"
proof (induction cols arbitrary: d)
  case Nil
  then show ?case by simp
next
  case (Cons col cols)
  then obtain v where "map_of row col = Some v"
    by (cases "map_of row col") (auto simp: map_of_eq_None_iff)
  with Cons show ?case by simp
qed

lemma preview_loop_length:
  "\<forall>row \<in> set rows. set cols \<subseteq> fst ` set row \<Longrightarrow>
   \<exists>out. preview_loop rows cols acc = Inr out \<and> length out = length acc + length rows"
proof (induction rows arbitrary: acc)
  case Nil
  then show ?case by simp
next
  case (Cons row rows)
  then obtain d where d: "row_loop row cols Map.empty = Inr d"
    using row_loop_ok [of cols row Map.empty] by auto
  from Cons.IH [of "acc @ [d]"] Cons.prems
  obtain out where "preview_loop rows cols (acc @ [d]) = Inr out" "length out = length (acc @ [d]) + length rows"
    by auto
  with d show ?case by simp
qed

lemma iterrows_labels: "row \<in> set (iterrows df) \<Longrightarrow> fst ` set row = fst ` set df"
  by (force simp: iterrows_def Let_def image_iff)

lemma length_iterrows [simp]: "length (iterrows df) = len_df df"
  by (simp add: iterrows_def Let_def)

lemma preview_length: "\<exists>rows. preview limit df = Inr rows \<and> length rows = min limit (len_df df)"
proof -
  have "\<forall>row \<in> set (iterrows (head limit df)). set (columns (head limit df)) \<subseteq> fst ` set row"
    by (auto simp: iterrows_labels columns_def)
  from preview_loop_length [OF this, of "[]"] show ?thesis
    by (simp add: preview_def Let_def len_df_head)
qed

lemma flags_loop_result:
  assumes "set cols \<subseteq> fst ` set df"
  shows "\<exists>flags'. flags_loop limit df cols flags = Inr flags' \<and>
     (\<forall>col c. col \<in> set cols \<longrightarrow> map_of df col = Some c \<longrightarrow> flags' col = Some (take limit (isna c))) \<and>
     (\<forall>col. col \<notin> set cols \<longrightarrow> flags' col = flags col)"
  using assms
proof (induction cols arbitrary: flags)
  case Nil
  then show ?case by simp
next
  case (Cons col cols)
  then obtain c where c: "map_of df col = Some c"
    by (cases "map_of df col") (auto simp: map_of_eq_None_iff)
  let ?flags = "flags(col \<mapsto> take limit (isna c))"
  from Cons.prems have "set cols \<subseteq> fst ` set df" by simp
  from Cons.IH [OF this, of ?flags]
  obtain flags' where r: "flags_loop limit df cols ?flags = Inr flags'"
    "\<forall>col c. col \<in> set cols \<longrightarrow> map_of df col = Some c \<longrightarrow> flags' col = Some (take limit (isna c))"
    "\<forall>x. x \<notin> set cols \<longrightarrow> flags' x = ?flags x"
    by blast
  have a: "flags_loop limit df (col # cols) flags = Inr flags'"
    using r(1) by (simp add: getitem_Some [OF c] Let_def)
  have b: "flags' x = Some (take limit (isna d))" if "x \<in> set (col # cols)" "map_of df x = Some d" for x d
  proof (cases "x \<in> set cols")
    case True
    with r(2) that show ?thesis by blast
  next
    case False
    with that have "x = col" by simp
    with False r(3) c that show ?thesis by simp
  qed
  have d: "flags' x = flags x" if "x \<notin> set (col # cols)" for x
    using r(3) that by simp
  from a b d show ?case by blast
qed

lemma select_dtypes_subset: "set (select_dtypes_number df) \<subseteq> fst ` set df"
  by (auto simp: select_dtypes_number_def)

lemma process_file_success:
  assumes f: "files s filename = Some df" and d: "distinct (map fst df)"
    and n: "select_dtypes_number df \<noteq> []"
  shows "\<exists>st rows flags.
     calculate_imputation_stats df (imputed_frame (select_dtypes_number df) df) (select_dtypes_number df) = Inr st \<and>
     preview 50 (imputed_frame (select_dtypes_number df) df) = Inr rows \<and>
     flags_loop 50 df (select_dtypes_number df) Map.empty = Inr flags \<and>
     process_file filename s =
       (Inr \<lparr>stats = st, preview_data = rows, imputation_flags = flags,
             processed_filename = ''processed_'' @ filename,
             numeric_columns = select_dtypes_number df\<rparr>,
        s\<lparr>files := (files s)(''processed_'' @ filename \<mapsto> imputed_frame (select_dtypes_number df) df),
          heap := heap s @ [df, imputed_frame (select_dtypes_number df) df]\<rparr>)"
proof -
  let ?cols = "select_dtypes_number df"
  let ?pdf = "imputed_frame ?cols df"
  let ?a = "length (heap s)"
  let ?p = "Suc (length (heap s))"
  let ?s2 = "s\<lparr>heap := heap s @ [df, df]\<rparr>"
  let ?s3 = "s\<lparr>heap := heap s @ [df, ?pdf]\<rparr>"
  have alloc: "new_object df s = (?a, s\<lparr>heap := heap s @ [df]\<rparr>)"
    by (simp add: new_object_def)
  have copy: "df_copy ?a (s\<lparr>heap := heap s @ [df]\<rparr>) = (?p, ?s2)"
    by (simp add: df_copy_def new_object_def)
  have p2: "heap ?s2 ! ?p = df" and a2: "heap ?s2 ! ?a = df"
    by (simp_all add: nth_append)
  have "impute_loop ?p ?cols ?s2 = (None, ?s2\<lparr>heap := (heap ?s2)[?p := imputed_frame ?cols (heap ?s2 ! ?p)]\<rparr>)"
    by (rule impute_loop_frame) (simp_all add: nth_append d)
  moreover have "?s2\<lparr>heap := (heap ?s2)[?p := imputed_frame ?cols (heap ?s2 ! ?p)]\<rparr> = ?s3"
    by (simp add: nth_append list_update_append)
  ultimately have loop: "impute_loop ?p ?cols ?s2 = (None, ?s3)"
    by simp
  have p3: "heap ?s3 ! ?p = ?pdf" and a3: "heap ?s3 ! ?a = df"
    by (simp_all add: nth_append)
  obtain st where st: "calculate_imputation_stats df ?pdf ?cols = Inr st"
    using stats_result [OF d, of ?cols ?pdf] by auto
  obtain rows where rows: "preview 50 ?pdf = Inr rows"
    using preview_length [of 50 ?pdf] by auto
  obtain flags where flags: "flags_loop 50 df ?cols Map.empty = Inr flags"
    using flags_loop_result [OF select_dtypes_subset, of 50 df Map.empty] by auto
  have "process_file filename s =
       (Inr \<lparr>stats = st, preview_data = rows, imputation_flags = flags,
             processed_filename = ''processed_'' @ filename,
             numeric_columns = ?cols\<rparr>,
        ?s3\<lparr>files := (files ?s3)(''processed_'' @ filename \<mapsto> heap ?s3 ! ?p)\<rparr>)"
    unfolding process_file_def
    by (simp add: f alloc copy n loop st rows flags nth_append Let_def)
  then show ?thesis
    using st rows flags by (simp add: nth_append)
qed

lemma process_file_no_numeric:
  assumes "files s filename = Some df" and "select_dtypes_number df = []"
  shows "process_file filename s = (Inl NoNumericColumns, s\<lparr>heap := heap s @ [df, df]\<rparr>)"
  using assms
  by (simp add: process_file_def new_object_def df_copy_def nth_append)

lemma process_file_Inr_numeric:
  assumes "files s filename = Some df" and "process_file filename s = (Inr r, s')"
  shows "select_dtypes_number df \<noteq> []"
  using assms process_file_no_numeric [of s filename df] by auto

lemma wf_scenario_table: "wf_df scenario_table"
  by (simp add: wf_df_def scenario_table_def len_df_def)

lemma wf_empty_column_table: "wf_df empty_column_table"
  by (simp add: wf_df_def empty_column_table_def len_df_def)

lemma numeric_scenario_table: "select_dtypes_number scenario_table = [''age'']"
  by (simp add: select_dtypes_number_def scenario_table_def)

lemma numeric_empty_column_table: "select_dtypes_number empty_column_table = [''id'', ''score'']"
  by (simp add: select_dtypes_number_def empty_column_table_def)

lemma imputed_age: "imputed (Float64 [Some 25, None, Some 35, None]) = Float64 [Some 25, Some 30, Some 35, Some 30]"
  by (simp add: imputed_def series_any_def nanmean_def)

lemma imputed_frame_scenario:
  "imputed_frame [''age''] scenario_table =
     [(''name'', Object [Some ''ann'', Some ''bob'', None, Some ''dan'']),
      (''age'', Float64 [Some 25, Some 30, Some 35, Some 30])]"
  by (simp add: imputed_frame_def scenario_table_def imputed_age)


lemma process_scenario:
  "\<exists>r s'. process_file ''data.csv'' (upload ''data.csv'' scenario_table) = (Inr r, s')"
  using process_file_success [of "upload ''data.csv'' scenario_table" "''data.csv''" scenario_table]
    wf_scenario_table
  by (auto simp: upload_def wf_df_def numeric_scenario_table)

lemma present_Nil_iff: "present xs = [] \<longleftrightarrow> (\<forall>x \<in> set xs. x = None)"
  by (induction xs rule: present.induct) auto


lemma imputed_all_missing:
  assumes "False \<notin> set (isna c)"
  shows "imputed c = c"
proof (cases c)
  case (Float64 xs)
  with assms have "present xs = []"
    by (auto simp: present_Nil_iff)
  with Float64 show ?thesis
    by (simp add: imputed_def nanmean_present)
qed (auto simp: imputed_def series_any_def)

lemma imputed_no_na: "\<not> series_any (isna c) \<Longrightarrow> imputed c = c"
  by (simp add: imputed_def)

lemma series_sum_zero: "series_sum bs = 0 \<longleftrightarrow> \<not> series_any bs"
  by (induction bs) (auto simp: series_sum_def series_any_def)


lemma process_file_Inr:
  assumes "files s filename = Some df" and "distinct (map fst df)"
    and "process_file filename s = (Inr r, s')"
  shows "select_dtypes_number df \<noteq> [] \<and>
     numeric_columns r = select_dtypes_number df \<and>
     processed_filename r = ''processed_'' @ filename \<and>
     calculate_imputation_stats df (imputed_frame (select_dtypes_number df) df) (select_dtypes_number df) = Inr (stats r) \<and>
     preview 50 (imputed_frame (select_dtypes_number df) df) = Inr (preview_data r) \<and>
     flags_loop 50 df (select_dtypes_number df) Map.empty = Inr (imputation_flags r) \<and>
     s' = s\<lparr>files := (files s)(''processed_'' @ filename \<mapsto> imputed_frame (select_dtypes_number df) df),
            heap := heap s @ [df, imputed_frame (select_dtypes_number df) df]\<rparr>"
proof -
  have n: "select_dtypes_number df \<noteq> []"
    by (rule process_file_Inr_numeric [OF assms(1,3)])
  from process_file_success [OF assms(1,2) n] assms(3) n show ?thesis
    by auto
qed


lemma length_isna [simp]: "length (isna c) = len_series c"
  by (cases c) auto

lemma wf_df_len:
  assumes "wf_df df" and "map_of df col = Some c"
  shows "len_series c = len_df df"
proof -
  have "(col, c) \<in> set df"
    using assms(2) by (rule map_of_SomeD)
  with assms(1) show ?thesis
    by (auto simp: wf_df_def list_all_iff)
qed

lemma len_df_imputed_frame [simp]: "len_df (imputed_frame cols df) = len_df df"
  by (cases df) (auto simp: len_df_def imputed_frame_def)



section \<open>Filling the missing cells\<close>




section \<open>Tables without numeric columns\<close>



section \<open>The report\<close>





section \<open>Which columns are numeric\<close>




section \<open>Columns without missing cells, and a second run\<close>

text \<open>
  C6. For every accepted table and every numeric column of it without a missing cell,
  the processed table holds that column as it was, and the report gives
  \<open>imputed_counts[c] = 0\<close>.
\<close>

theorem complete_column_unchanged:
  assumes "files s filename = Some df" and "wf_df df"
    and "col \<in> set (select_dtypes_number df)" and "map_of df col = Some c"
    and "\<not> series_any (isna c)"
  shows "\<exists>r s' processed. process_file filename s = (Inr r, s') \<and>
           col \<in> set (numeric_columns r) \<and>
           files s' (processed_filename r) = Some processed \<and>
           map_of processed col = Some c \<and> imputed_counts (stats r) col = Some 0"
proof -
  have d: "distinct (map fst df)"
    using assms(2) by (simp add: wf_df_def)
  have n: "select_dtypes_number df \<noteq> []"
    using assms(3) by auto
  obtain r s' where run: "process_file filename s = (Inr r, s')"
    using process_file_success [OF assms(1) d n] by blast
  note r = process_file_Inr [OF assms(1) d run]
  let ?cols = "select_dtypes_number df"
  have "files s' (processed_filename r) = Some (imputed_frame ?cols df)"
    using r by simp
  moreover have "map_of (imputed_frame ?cols df) col = Some c"
    using assms(3,4,5) by (simp add: map_of_imputed_frame imputed_no_na)
  moreover have "imputed_counts (stats r) col = Some (series_sum (isna c))"
    using stats_result [OF d subset_refl, of "imputed_frame ?cols df"] r assms(3,4) by auto
  moreover have "series_sum (isna c) = 0"
    using assms(5) by (simp add: series_sum_zero)
  moreover have "col \<in> set (numeric_columns r)"
    using assms(3) r by simp
  ultimately show ?thesis
    using run by auto
qed

theorem complete_column_unchanged_witness:
  "wf_df empty_column_table \<and> ''id'' \<in> set (select_dtypes_number empty_column_table) \<and>
   \<not> series_any (isna (Int64 [1, 2])) \<and>
   (\<exists>r s' processed. process_file ''data.csv'' (upload ''data.csv'' empty_column_table) = (Inr r, s') \<and>
      files s' (processed_filename r) = Some processed \<and>
      map_of processed ''id'' = Some (Int64 [1, 2]) \<and> imputed_counts (stats r) ''id'' = Some 0)"
proof -
  let ?s = "upload ''data.csv'' empty_column_table"
  have f: "files ?s ''data.csv'' = Some empty_column_table"
    by (simp add: upload_def)
  have col: "''id'' \<in> set (select_dtypes_number empty_column_table)"
    by (simp add: numeric_empty_column_table)
  have c: "map_of empty_column_table ''id'' = Some (Int64 [1, 2])"
    by (simp add: empty_column_table_def)
  have m: "\<not> series_any (isna (Int64 [1, 2]))"
    by (simp add: series_any_def)
  from complete_column_unchanged [OF f wf_empty_column_table col c m] col m
    wf_empty_column_table
  show ?thesis
    by blast
qed




section \<open>The original frame\<close>

text \<open>
  C8. \<^verbatim>\<open>process_file\<close> never changes the original table: the imputation works on the
  copy, so after the call, whatever its answer, the frame that \<^verbatim>\<open>read_csv\<close> allocated
  (at the first free address of the heap) still holds the table of the file, cell for
  cell and with its missing cells, and so does the uploaded file.
\<close>

theorem original_not_mutated:
  assumes "files s filename = Some df"
  shows "heap (snd (process_file filename s)) ! length (heap s) = df \<and>
         files (snd (process_file filename s)) filename = Some df"
proof -
  let ?a = "length (heap s)"
  let ?p = "Suc (length (heap s))"
  let ?s2 = "s\<lparr>heap := heap s @ [df, df]\<rparr>"
  let ?cols = "select_dtypes_number df"
  obtain e s3 where loop: "impute_loop ?p ?cols ?s2 = (e, s3)"
    by (cases "impute_loop ?p ?cols ?s2")
  from impute_loop_other [OF loop]
  have o: "files s3 = files s" "heap s3 ! ?a = df"
    by (simp_all add: nth_append)
  have name: "''processed_'' @ filename \<noteq> filename"
    by (metis append_self_conv2 list.distinct(1))
  have alloc: "new_object df s = (?a, s\<lparr>heap := heap s @ [df]\<rparr>)"
    by (simp add: new_object_def)
  have copy: "df_copy ?a (s\<lparr>heap := heap s @ [df]\<rparr>) = (?p, ?s2)"
    by (simp add: df_copy_def new_object_def)
  show ?thesis
    using o name
    by (auto simp: process_file_def assms alloc copy nth_append loop Let_def
             split: option.splits sum.splits)
qed

theorem original_not_mutated_witness:
  "files (upload ''data.csv'' scenario_table) ''data.csv'' = Some scenario_table \<and>
   heap (snd (process_file ''data.csv'' (upload ''data.csv'' scenario_table))) ! 0 = scenario_table \<and>
   files (snd (process_file ''data.csv'' (upload ''data.csv'' scenario_table))) ''data.csv'' =
     Some scenario_table"
proof -
  have f: "files (upload ''data.csv'' scenario_table) ''data.csv'' = Some scenario_table"
    by (simp add: upload_def)
  from original_not_mutated [OF f] f show ?thesis
    by (simp add: upload_def)
qed

section \<open>The preview\<close>

text \<open>
  C9. The claim asks that the preview render the cells of an integer column as integers
  and fractional numbers as floating point. The program tests the type of each value for
  that, but it reads the values through \<^verbatim>\<open>iterrows\<close>, which hands every row over in the
  common dtype of all columns. For the table with the columns \<open>n = [1]\<close> (\<^verbatim>\<open>int64\<close>)
  and \<open>x = [1.5]\<close> (\<^verbatim>\<open>float64\<close>) the cell \<open>n = 1\<close> is rendered as the floating point
  number \<open>1.0\<close>; for the table of the scenario, which has a text column, the numbers of
  \<open>age\<close> are rendered as text.
\<close>

theorem preview_loses_number_types:
  "map_sum id (map (\<lambda>row. (row ''n'', row ''x'')) \<circ> preview_data)
       (fst (process_file ''data.csv'' (upload ''data.csv'' int_float_table))) =
     Inr [(Some (Floating 1), Some (Floating (3 / 2)))] \<and>
   map_sum id (map (\<lambda>row. (row ''name'', row ''age'')) \<circ> preview_data)
       (fst (process_file ''data.csv'' (upload ''data.csv'' scenario_table))) =
     Inr [(Some (Text (PyStr ''ann'')), Some (Text (PyFloat (Some 25)))),
          (Some (Text (PyStr ''bob'')), Some (Text (PyFloat (Some 30)))),
          (Some Null, Some (Text (PyFloat (Some 35)))),
          (Some (Text (PyStr ''dan'')), Some (Text (PyFloat (Some 30))))]"
proof -
  have f1: "files (upload ''data.csv'' int_float_table) ''data.csv'' = Some int_float_table"
    by (simp add: upload_def)
  have d1: "distinct (map fst int_float_table)"
    by (simp add: int_float_table_def)
  have n1: "select_dtypes_number int_float_table = [''n'', ''x'']"
    by (simp add: select_dtypes_number_def int_float_table_def)
  have i1: "imputed_frame [''n'', ''x''] int_float_table = int_float_table"
    by (simp add: imputed_frame_def int_float_table_def imputed_def series_any_def)
  obtain r1 s1 where run1: "process_file ''data.csv'' (upload ''data.csv'' int_float_table) = (Inr r1, s1)"
    using process_file_success [OF f1 d1] by (auto simp: n1)
  have p1: "preview 50 int_float_table = Inr (preview_data r1)"
    using process_file_Inr [OF f1 d1 run1] by (simp add: n1 i1)
  have "map_sum id (map (\<lambda>row. (row ''n'', row ''x''))) (preview 50 int_float_table) =
      Inr [(Some (Floating 1), Some (Floating (3 / 2)))]"
    by (simp add: preview_def int_float_table_def head_def iterrows_def values_dtype_def
        len_df_def columns_def to_native_def Let_def)
  then have 1: "map (\<lambda>row. (row ''n'', row ''x'')) (preview_data r1) =
      [(Some (Floating 1), Some (Floating (3 / 2)))]"
    unfolding p1 by simp
  have f2: "files (upload ''data.csv'' scenario_table) ''data.csv'' = Some scenario_table"
    by (simp add: upload_def)
  have d2: "distinct (map fst scenario_table)"
    by (simp add: scenario_table_def)
  obtain r2 s2 where run2: "process_file ''data.csv'' (upload ''data.csv'' scenario_table) = (Inr r2, s2)"
    using process_scenario by blast
  have p2: "preview 50 (imputed_frame [''age''] scenario_table) = Inr (preview_data r2)"
    using process_file_Inr [OF f2 d2 run2] by (simp add: numeric_scenario_table)
  have "map_sum id (map (\<lambda>row. (row ''name'', row ''age'')))
        (preview 50 (imputed_frame [''age''] scenario_table)) =
      Inr [(Some (Text (PyStr ''ann'')), Some (Text (PyFloat (Some 25)))),
           (Some (Text (PyStr ''bob'')), Some (Text (PyFloat (Some 30)))),
           (Some Null, Some (Text (PyFloat (Some 35)))),
           (Some (Text (PyStr ''dan'')), Some (Text (PyFloat (Some 30))))]"
    by (simp add: imputed_frame_scenario preview_def head_def iterrows_def values_dtype_def
        len_df_def columns_def to_native_def Let_def upt_rec)
  then have 2: "map (\<lambda>row. (row ''name'', row ''age'')) (preview_data r2) =
      [(Some (Text (PyStr ''ann'')), Some (Text (PyFloat (Some 25)))),
       (Some (Text (PyStr ''bob'')), Some (Text (PyFloat (Some 30)))),
       (Some Null, Some (Text (PyFloat (Some 35)))),
       (Some (Text (PyStr ''dan'')), Some (Text (PyFloat (Some 30))))]"
    unfolding p2 by simp
  from 1 2 run1 run2 show ?thesis
    by simp
qed

text \<open>
  C10. For every accepted table and every numeric column, the flag sequence of the answer
  is the list of the first 50 missing-marks of that column in the original table: it is
  as long as the preview, which has \<open>min 50 total_rows\<close> rows, and its \<open>k\<close>-th entry
  says whether the \<open>k\<close>-th original cell is missing. The flags depend on the original
  table alone: every accepted run on the same table, under any name and in any state,
  gives the same flags. The same holds of the two loops for every limit in place of 50.
\<close>

theorem flags_follow_original:
  assumes "files s filename = Some df" and "wf_df df"
    and "col \<in> set (select_dtypes_number df)" and "map_of df col = Some c"
  shows "\<exists>r s'. process_file filename s = (Inr r, s') \<and>
           col \<in> set (numeric_columns r) \<and>
           imputation_flags r col = Some (take 50 (isna c)) \<and>
           length (take 50 (isna c)) = length (preview_data r) \<and>
           length (preview_data r) = min 50 (len_df df) \<and>
           (\<forall>k < length (preview_data r). take 50 (isna c) ! k = isna c ! k) \<and>
           (\<forall>t name r2 t'. files t name = Some df \<longrightarrow> process_file name t = (Inr r2, t') \<longrightarrow>
              imputation_flags r2 = imputation_flags r) \<and>
           (\<exists>processed. files s' (processed_filename r) = Some processed \<and>
              (\<forall>limit. \<exists>rows flags.
                 preview limit processed = Inr rows \<and>
                 flags_loop limit df (numeric_columns r) Map.empty = Inr flags \<and>
                 flags col = Some (take limit (isna c)) \<and>
                 length (take limit (isna c)) = length rows))"
proof -
  have d: "distinct (map fst df)"
    using assms(2) by (simp add: wf_df_def)
  have n: "select_dtypes_number df \<noteq> []"
    using assms(3) by auto
  obtain r s' where run: "process_file filename s = (Inr r, s')"
    using process_file_success [OF assms(1) d n] by blast
  note r = process_file_Inr [OF assms(1) d run]
  let ?cols = "select_dtypes_number df"
  let ?pdf = "imputed_frame ?cols df"
  have len: "length (isna c) = len_df df"
    using wf_df_len [OF assms(2,4)] by simp
  have fl: "flags_loop 50 df ?cols Map.empty = Inr (imputation_flags r)"
    using r by simp
  from flags_loop_result [OF select_dtypes_subset, of 50 df Map.empty] fl assms(3,4)
  have 1: "imputation_flags r col = Some (take 50 (isna c))"
    by auto
  from preview_length [of 50 ?pdf] r
  have 2: "length (preview_data r) = min 50 (len_df df)"
    by auto
  have 3: "length (take 50 (isna c)) = length (preview_data r)"
    using 2 len by simp
  have 4: "imputation_flags r2 = imputation_flags r"
    if "files t name = Some df" "process_file name t = (Inr r2, t')" for t name r2 t'
    using process_file_Inr [OF that(1) d that(2)] fl by simp
  have 5: "\<exists>rows flags. preview limit ?pdf = Inr rows \<and>
      flags_loop limit df (numeric_columns r) Map.empty = Inr flags \<and>
      flags col = Some (take limit (isna c)) \<and> length (take limit (isna c)) = length rows" for limit
  proof -
    obtain rows where rows: "preview limit ?pdf = Inr rows" "length rows = min limit (len_df df)"
      using preview_length [of limit ?pdf] by auto
    obtain flags where flags: "flags_loop limit df ?cols Map.empty = Inr flags"
      "flags col = Some (take limit (isna c))"
      using flags_loop_result [OF select_dtypes_subset, of limit df Map.empty] assms(3,4) by blast
    from rows flags len r show ?thesis
      by simp
  qed
  have 6: "files s' (processed_filename r) = Some ?pdf"
    using r by simp
  have 7: "col \<in> set (numeric_columns r)"
    using assms(3) r by simp
  have "col \<in> set (numeric_columns r) \<and>
           imputation_flags r col = Some (take 50 (isna c)) \<and>
           length (take 50 (isna c)) = length (preview_data r) \<and>
           length (preview_data r) = min 50 (len_df df) \<and>
           (\<forall>k < length (preview_data r). take 50 (isna c) ! k = isna c ! k) \<and>
           (\<forall>t name r2 t'. files t name = Some df \<longrightarrow> process_file name t = (Inr r2, t') \<longrightarrow>
              imputation_flags r2 = imputation_flags r) \<and>
           (\<exists>processed. files s' (processed_filename r) = Some processed \<and>
              (\<forall>limit. \<exists>rows flags.
                 preview limit processed = Inr rows \<and>
                 flags_loop limit df (numeric_columns r) Map.empty = Inr flags \<and>
                 flags col = Some (take limit (isna c)) \<and>
                 length (take limit (isna c)) = length rows))"
    using 1 2 3 4 5 6 7 by auto
  with run show ?thesis
    by blast
qed

theorem flags_follow_original_witness:
  "wf_df scenario_table \<and> ''age'' \<in> set (select_dtypes_number scenario_table) \<and>
   (\<exists>r s' r2 t'. process_file ''data.csv'' (upload ''data.csv'' scenario_table) = (Inr r, s') \<and>
      imputation_flags r ''age'' = Some [False, True, False, True] \<and>
      length (preview_data r) = 4 \<and>
      process_file ''copy.csv'' (upload ''copy.csv'' scenario_table) = (Inr r2, t') \<and>
      imputation_flags r2 = imputation_flags r)"
proof -
  let ?s = "upload ''data.csv'' scenario_table"
  have f: "files ?s ''data.csv'' = Some scenario_table"
    by (simp add: upload_def)
  have f2: "files (upload ''copy.csv'' scenario_table) ''copy.csv'' = Some scenario_table"
    by (simp add: upload_def)
  have d: "distinct (map fst scenario_table)"
    using wf_scenario_table by (simp add: wf_df_def)
  obtain r2 t' where run2: "process_file ''copy.csv'' (upload ''copy.csv'' scenario_table) = (Inr r2, t')"
    using process_file_success [OF f2 d] by (auto simp: numeric_scenario_table)
  have col: "''age'' \<in> set (select_dtypes_number scenario_table)"
    by (simp add: numeric_scenario_table)
  have c: "map_of scenario_table ''age'' = Some (Float64 [Some 25, None, Some 35, None])"
    by (simp add: scenario_table_def)
  have len: "len_df scenario_table = 4"
    by (simp add: len_df_def scenario_table_def)
  from flags_follow_original [OF f wf_scenario_table col c]
  obtain r s' where run: "process_file ''data.csv'' ?s = (Inr r, s')"
    and "imputation_flags r ''age'' = Some [False, True, False, True]"
    and "length (preview_data r) = 4"
    and "imputation_flags r2 = imputation_flags r"
    using f2 run2 by (auto simp: len)
  with run2 col wf_scenario_table show ?thesis
    by blast
qed

end
